theory Spec2Isabelle
  imports Main
begin

section \<open>Guild configuration menus (lightning/cogs/config/ui.py)\<close>

text \<open>
  The settings menus of the bot read and write per-guild configuration through a REST
  client and a cached configuration getter. The handlers are modelled as functions on an
  explicit world: the backing storage, the configuration cache and a log of the write
  requests that were issued. A Python exception is the outcome \<open>Raised\<close>; the world at
  the moment of the raise is returned with it, since nothing is rolled back.
\<close>

subsection \<open>Errors, effects and the world\<close>

datatype error = NotFound | StorageError | ValueError

datatype api_call =
    BulkUpsertPrefixes int "string list"
  | AddConfigKey int string int
  | RemoveConfigKey int string

record role =
  role_id :: int
  mention :: string

record guild_bot_config =
  autorole_id :: "int option"

record world =
  api_up :: bool
  stored_prefixes :: "int \<rightharpoonup> string list"
  stored_config :: "int \<Rightarrow> string \<rightharpoonup> int"
  config_cache :: "int \<rightharpoonup> guild_bot_config"
  guild_roles :: "int \<rightharpoonup> role"
  api_log :: "api_call list"
  invalidated :: "int list"

text \<open>
  What a handler did when it stopped: it raised, or it ran to a \<open>return\<close> (or to its
  end) after sending the listed messages itself (\<open>send_message\<close>, \<open>followup.send\<close>).
  Messages sent before a raise are not kept in the outcome.
\<close>

datatype outcome = Raised error | Finished "string list"

subsection \<open>The prefix API\<close>

text \<open>
  \<open>ctx.bot.api.request("GET", "/guilds/{id}/prefixes")\<close>: the client raises NotFound for
  a guild without stored prefixes, and fails when the service cannot be reached.
\<close>

definition api_request_prefixes :: "world \<Rightarrow> int \<Rightarrow> error + string list" where
  "api_request_prefixes w g =
     (if \<not> api_up w then Inl StorageError
      else case stored_prefixes w g of None \<Rightarrow> Inl NotFound | Some ps \<Rightarrow> Inr ps)"

text \<open>
  \<open>ctx.bot.api.bulk_upsert_guild_prefixes(guild_id, prefixes)\<close>: replaces the stored
  list. Every request is logged, also one that fails.
\<close>

definition bulk_upsert_guild_prefixes :: "world \<Rightarrow> int \<Rightarrow> string list \<Rightarrow> error option \<times> world" where
  "bulk_upsert_guild_prefixes w g ps =
     (let w1 = w\<lparr>api_log := api_log w @ [BulkUpsertPrefixes g ps]\<rparr>
      in if api_up w then (None, w1\<lparr>stored_prefixes := (stored_prefixes w)(g \<mapsto> ps)\<rparr>)
         else (Some StorageError, w1))"

subsection \<open>The prefix modal\<close>



datatype modal_action = Submit string | Dismiss

definition modal_prefix_value :: "modal_action \<Rightarrow> string option" where
  "modal_prefix_value a = (case a of Dismiss \<Rightarrow> None | Submit s \<Rightarrow> Some s)"

subsection \<open>The Prefix menu\<close>

definition get_prefixes :: "world \<Rightarrow> int \<Rightarrow> error + string list" where
  "get_prefixes w g =
     (case api_request_prefixes w g of
        Inl NotFound \<Rightarrow> Inr []
      | Inl e \<Rightarrow> Inl e
      | Inr ps \<Rightarrow> Inr ps)"

definition add_prefix :: "world \<Rightarrow> int \<Rightarrow> modal_action \<Rightarrow> outcome \<times> world" where
  "add_prefix w g a =
     (case get_prefixes w g of
        Inl e \<Rightarrow> (Raised e, w)
      | Inr prefixes \<Rightarrow>
          if length prefixes > 5
          then (Finished [''You cannot have more than 5 custom prefixes!''], w)
          else (case modal_prefix_value a of
                  None \<Rightarrow> (Finished [], w)
                | Some v \<Rightarrow>
                    if v = [] then (Finished [], w)
                    else if v \<in> set prefixes
                    then (Finished [''This prefix is already registered!''], w)
                    else (case bulk_upsert_guild_prefixes w g (prefixes @ [v]) of
                            (Some e, w') \<Rightarrow> (Raised e, w')
                          | (None, w') \<Rightarrow> (Finished [], w'))))"

text \<open>
  Modelled from the spec: \<open>SelectSubMenu\<close> (lightning/ui.py) is not among the sources. The
  spec's select presents the given choices for a single selection and produces the chosen
  value, or nothing when it is cancelled or times out. The user's choice is a position in
  the list of options.
\<close>

definition SelectSubMenu_values :: "string list \<Rightarrow> nat option \<Rightarrow> string list" where
  "SelectSubMenu_values options choice =
     (case choice of
        None \<Rightarrow> []
      | Some i \<Rightarrow> if i < length options then [options ! i] else [])"

text \<open>
  \<open>remove_prefix\<close> after \<open>select.wait()\<close> (from \<open>if not select.values\<close> on):
  \<open>prefixes\<close> is the list read when the handler started and \<open>values\<close> is
  \<open>select.values\<close>. \<open>list.remove\<close> raises ValueError for a value that is not in the
  list, before anything is written; it removes the first occurrence otherwise. The list
  written is computed from the list read at the start, not from what is stored by now.
\<close>

definition remove_prefix_after_select ::
  "world \<Rightarrow> int \<Rightarrow> string list \<Rightarrow> string list \<Rightarrow> outcome \<times> world" where
  "remove_prefix_after_select w g prefixes values =
     (case values of
        [] \<Rightarrow> (Finished [], w)
      | v # _ \<Rightarrow>
          if v \<notin> set prefixes then (Raised ValueError, w)
          else (case bulk_upsert_guild_prefixes w g (remove1 v prefixes) of
                  (Some e, w') \<Rightarrow> (Raised e, w')
                | (None, w') \<Rightarrow> (Finished [], w')))"

text \<open>
  \<open>remove_prefix\<close> run without anything else happening while the select is open:
  \<open>values\<close> is \<open>select.values\<close> after the sub-menu was waited for.
\<close>

definition remove_prefix :: "world \<Rightarrow> int \<Rightarrow> string list \<Rightarrow> outcome \<times> world" where
  "remove_prefix w g values =
     (case get_prefixes w g of
        Inl e \<Rightarrow> (Raised e, w)
      | Inr prefixes \<Rightarrow> remove_prefix_after_select w g prefixes values)"

text \<open>
  \<open>remove_prefix\<close> with the wait for the select made explicit. The handler reads the
  prefixes in the world \<open>w\<close> it starts in and builds the select from them; it is suspended
  while the user chooses, and resumes in the world \<open>w'\<close> of that moment, which other
  sessions of the same guild may have changed meanwhile (handlers of different sessions are
  not serialised against each other).
\<close>

definition remove_prefix_interleaved ::
  "world \<Rightarrow> world \<Rightarrow> int \<Rightarrow> nat option \<Rightarrow> outcome \<times> world" where
  "remove_prefix_interleaved w w' g choice =
     (case get_prefixes w g of
        Inl e \<Rightarrow> (Raised e, w)
      | Inr prefixes \<Rightarrow>
          remove_prefix_after_select w' g prefixes (SelectSubMenu_values prefixes choice))"

record prefix_components =
  add_prefix_disabled :: bool
  remove_prefix_disabled :: bool

definition update_components :: "world \<Rightarrow> int \<Rightarrow> error + prefix_components" where
  "update_components w g =
     (case get_prefixes w g of
        Inl e \<Rightarrow> Inl e
      | Inr config \<Rightarrow>
          Inr \<lparr>add_prefix_disabled = (length config > 5), remove_prefix_disabled = (config = [])\<rparr>)"

text \<open>A user pressing the buttons of the Prefix menu, one press after the other.\<close>

datatype prefix_op = AddOp modal_action | RemoveOp "string list"

fun prefix_step :: "int \<Rightarrow> world \<Rightarrow> prefix_op \<Rightarrow> world" where
  "prefix_step g w (AddOp a) = snd (add_prefix w g a)"
| "prefix_step g w (RemoveOp vs) = snd (remove_prefix w g vs)"

definition prefix_run :: "int \<Rightarrow> world \<Rightarrow> prefix_op list \<Rightarrow> world" where
  "prefix_run g w ops = foldl (prefix_step g) w ops"

subsection \<open>The configuration getter and the key mutators\<close>

text \<open>
  Modelled from the spec: \<open>Configuration.add_config_key\<close> and
  \<open>Configuration.remove_config_key\<close> (lightning/cogs/config/cog.py) are not among the
  sources. The spec's mutator persists a single field through the backing storage and
  fails with a storage error when the backing write fails.
\<close>

definition add_config_key :: "world \<Rightarrow> int \<Rightarrow> string \<Rightarrow> int \<Rightarrow> error option \<times> world" where
  "add_config_key w g k v =
     (let w1 = w\<lparr>api_log := api_log w @ [AddConfigKey g k v]\<rparr>
      in if api_up w
         then (None, w1\<lparr>stored_config := (stored_config w)(g := (stored_config w g)(k \<mapsto> v))\<rparr>)
         else (Some StorageError, w1))"

definition remove_config_key :: "world \<Rightarrow> int \<Rightarrow> string \<Rightarrow> error option \<times> world" where
  "remove_config_key w g k =
     (let w1 = w\<lparr>api_log := api_log w @ [RemoveConfigKey g k]\<rparr>
      in if api_up w
         then (None, w1\<lparr>stored_config := (stored_config w)(g := (stored_config w g)(k := None))\<rparr>)
         else (Some StorageError, w1))"

text \<open>
  Modelled from the spec: \<open>bot.get_guild_bot_config\<close> and its \<open>invalidate\<close>
  (lightning/bot.py) are not among the sources. The spec's store returns the cached record
  when there is one, fetches and caches it otherwise, gives a guild without stored
  configuration a record with every optional field unset, and evicts an entry only on
  explicit invalidation.
\<close>

definition get_guild_bot_config :: "world \<Rightarrow> int \<Rightarrow> (error + guild_bot_config) \<times> world" where
  "get_guild_bot_config w g =
     (case config_cache w g of
        Some r \<Rightarrow> (Inr r, w)
      | None \<Rightarrow>
          if \<not> api_up w then (Inl StorageError, w)
          else (let r = \<lparr>autorole_id = stored_config w g ''autorole''\<rparr>
                in (Inr r, w\<lparr>config_cache := (config_cache w)(g \<mapsto> r)\<rparr>)))"

definition invalidate :: "world \<Rightarrow> int \<Rightarrow> world" where
  "invalidate w g = w\<lparr>config_cache := (config_cache w)(g := None), invalidated := invalidated w @ [g]\<rparr>"

text \<open>
  Modelled from the spec: the record class behind \<open>record.autorole\<close> is not among the
  sources. The spec's resolved autorole is the role the stored id refers to, and it is
  absent when the id no longer resolves to a live role.
\<close>

definition autorole :: "(int \<rightharpoonup> role) \<Rightarrow> guild_bot_config \<Rightarrow> role option" where
  "autorole roles r = (case autorole_id r of None \<Rightarrow> None | Some i \<Rightarrow> roles i)"

subsection \<open>The AutoRole menu\<close>

text \<open>Python's \<open>str\<close> of an integer, for the role id in the embed's description.\<close>

fun str_nat :: "nat \<Rightarrow> string" where
  "str_nat n =
     (if n < 10 then [''0123456789'' ! n] else str_nat (n div 10) @ [''0123456789'' ! (n mod 10)])"

declare str_nat.simps [simp del]

definition str_int :: "int \<Rightarrow> string" where
  "str_int i = (if i < 0 then CHR ''-'' # str_nat (nat (- i)) else str_nat (nat i))"

record autorole_view =
  embed_title :: string
  embed_color :: nat
  embed_description :: string
  add_autorole_label :: string
  remove_autorole_disabled :: bool

text \<open>
  \<open>AutoRole.format_initial_message\<close>, from the record that its first line fetches. Each
  branch sets the label of the add button and the disabled flag of the remove button, so
  the view does not depend on what the buttons showed before.
\<close>

definition AutoRole_format_initial_message :: "(int \<rightharpoonup> role) \<Rightarrow> guild_bot_config \<Rightarrow> autorole_view" where
  "AutoRole_format_initial_message roles r =
     (case autorole roles r of
        Some ar \<Rightarrow>
          \<lparr>embed_title = ''Auto Role Configuration'', embed_color = 0xf74b06,
           embed_description = ''Members will be assigned '' @ mention ar @ '' ('' @ str_int (role_id ar)
             @ '') when they join this server.'',
           add_autorole_label = ''Change autorole'', remove_autorole_disabled = False\<rparr>
      | None \<Rightarrow>
          if autorole_id r = None
          then \<lparr>embed_title = ''Auto Role Configuration'', embed_color = 0xf74b06,
                embed_description = ''This server has not setup an autorole yet.'',
                add_autorole_label = ''Add an autorole'', remove_autorole_disabled = True\<rparr>
          else \<lparr>embed_title = ''Auto Role Configuration'', embed_color = 0xf74b06,
                embed_description = ''The autorole that was configured seems to be deleted! You can set another up by pressing the ''
                  @ [CHR 0x22] @ ''Change autorole'' @ [CHR 0x22] @ '' button.'',
                add_autorole_label = ''Change autorole'', remove_autorole_disabled = False\<rparr>)"

text \<open>
  Modelled from the spec: \<open>UpdateableMenu.update\<close> (lightning/ui.py) is not among the
  sources. The spec's re-render computes the display anew from the configuration getter.
\<close>

definition AutoRole_update :: "world \<Rightarrow> int \<Rightarrow> (error + autorole_view) \<times> world" where
  "AutoRole_update w g =
     (case get_guild_bot_config w g of
        (Inl e, w') \<Rightarrow> (Inl e, w')
      | (Inr r, w') \<Rightarrow> (Inr (AutoRole_format_initial_message (guild_roles w') r), w'))"

text \<open>
  \<open>add_autorole_button\<close>: \<open>prompted\<close> is what \<open>prompt_convert\<close> returned, a role or
  \<open>None\<close> (the prompt timed out or was given up).
\<close>

definition add_autorole_button :: "world \<Rightarrow> int \<Rightarrow> role option \<Rightarrow> outcome \<times> world" where
  "add_autorole_button w g prompted =
     (case prompted of
        None \<Rightarrow> (Finished [], w)
      | Some r \<Rightarrow>
          (case add_config_key w g ''autorole'' (role_id r) of
             (Some e, w1) \<Rightarrow> (Raised e, w1)
           | (None, w1) \<Rightarrow> (Finished [], invalidate w1 g)))"

definition remove_autorole_button :: "world \<Rightarrow> int \<Rightarrow> outcome \<times> world" where
  "remove_autorole_button w g =
     (case remove_config_key w g ''autorole'' of
        (Some e, w1) \<Rightarrow> (Raised e, w1)
      | (None, w1) \<Rightarrow>
          (let w2 = invalidate w1 g
           in case AutoRole_update w2 g of
                (Inl e, w3) \<Rightarrow> (Raised e, w3)
              | (Inr view, w3) \<Rightarrow> (Finished [''Successfully removed the server'' @ [CHR 0x27] @ ''s autorole''], w3)))"

subsection \<open>The session lock\<close>

text \<open>
  Each menu is a view of its own with its own session and its own lock. The AutoRole
  menu has the buttons "Add an autorole" and "Remove autorole", the Prefix menu has "Add
  prefix" and "Remove prefix". The source decorates \<open>add_autorole_button\<close>,
  \<open>add_prefix\<close> and \<open>remove_prefix\<close> with \<open>@lock_when_pressed\<close>;
  \<open>remove_autorole_button\<close> is not decorated.
\<close>

datatype autorole_control = AddAutoroleButton | RemoveAutoroleButton

datatype prefix_control = AddPrefix | RemovePrefix

fun AutoRole_lock_when_pressed :: "autorole_control \<Rightarrow> bool" where
  "AutoRole_lock_when_pressed AddAutoroleButton = True"
| "AutoRole_lock_when_pressed RemoveAutoroleButton = False"

fun Prefix_lock_when_pressed :: "prefix_control \<Rightarrow> bool" where
  "Prefix_lock_when_pressed AddPrefix = True"
| "Prefix_lock_when_pressed RemovePrefix = True"

text \<open>
  A session of a menu whose controls are of type \<open>'c\<close>: the flag of the lock and the
  handlers that were started and have not completed yet.
\<close>

record 'c session =
  locked :: bool
  in_flight :: "'c list"

definition new_session :: "'c session" where
  "new_session = \<lparr>locked = False, in_flight = []\<rparr>"

datatype 'c session_event = Activate 'c | Complete 'c

text \<open>
  Modelled from the spec: the decorator \<open>lock_when_pressed\<close> (lightning/ui.py) is not among
  the sources. The spec's lock is a mutual-exclusion flag owned by the session, checked
  before any control activation is accepted: an activation while the flag is set is
  ignored. A decorated handler holds the flag from its activation until it completes; a
  handler without the decorator runs without touching the flag. The first argument tells
  which controls of the menu have a decorated handler.
\<close>

fun session_step :: "('c \<Rightarrow> bool) \<Rightarrow> 'c session \<Rightarrow> 'c session_event \<Rightarrow> 'c session" where
  "session_step d s (Activate c) =
     (if locked s then s else s\<lparr>locked := d c, in_flight := c # in_flight s\<rparr>)"
| "session_step d s (Complete c) =
     (if c \<in> set (in_flight s)
      then s\<lparr>locked := (if d c then False else locked s), in_flight := remove1 c (in_flight s)\<rparr>
      else s)"

definition session_run :: "('c \<Rightarrow> bool) \<Rightarrow> 'c session_event list \<Rightarrow> 'c session" where
  "session_run d es = foldl (session_step d) new_session es"

subsection \<open>Concrete worlds\<close>

definition empty_world :: world where
  "empty_world =
     \<lparr>api_up = True, stored_prefixes = Map.empty, stored_config = (\<lambda>_. Map.empty),
      config_cache = Map.empty, guild_roles = Map.empty, api_log = [], invalidated = []\<rparr>"

definition five_prefix_world :: world where
  "five_prefix_world = empty_world\<lparr>stored_prefixes := [1 \<mapsto> [''a'', ''b'', ''c'', ''d'', ''e'']]\<rparr>"

definition two_prefix_world :: world where
  "two_prefix_world = empty_world\<lparr>stored_prefixes := [1 \<mapsto> [''!'', ''?'']]\<rparr>"

text \<open>
  Guild 1 after another session removed the prefix \<open>?\<close>, and after that session
  went on to add the prefix \<open>$\<close>.
\<close>

definition question_removed_world :: world where
  "question_removed_world = snd (remove_prefix two_prefix_world 1 [''?''])"

definition question_replaced_world :: world where
  "question_replaced_world = snd (add_prefix question_removed_world 1 (Submit ''$''))"


definition stale_cache_world :: world where
  "stale_cache_world =
     empty_world\<lparr>api_up := False, config_cache := [1 \<mapsto> \<lparr>autorole_id = Some 7\<rparr>]\<rparr>"

definition role_nine :: role where
  "role_nine = \<lparr>role_id = 9, mention = ''<@&9>''\<rparr>"

definition only_role_nine :: "int \<rightharpoonup> role" where
  "only_role_nine = [9 \<mapsto> role_nine]"

subsection \<open>The invariant of the session lock\<close>

text \<open>
  At most one decorated handler is in flight, and the flag is set exactly while one is.
\<close>

definition lock_inv :: "('c \<Rightarrow> bool) \<Rightarrow> 'c session \<Rightarrow> bool" where
  "lock_inv d s \<longleftrightarrow>
     length (filter d (in_flight s)) \<le> 1 \<and> (locked s \<longleftrightarrow> filter d (in_flight s) \<noteq> [])"

section \<open>Properties\<close>

subsection \<open>The limit of five prefixes\<close>

text \<open>
  C1. A guild whose stored list has exactly 5 prefixes: an attempt to add another one
  should be refused without a write. The guard of \<open>add_prefix\<close> is \<open>len(prefixes) > 5\<close>,
  so at 5 entries the handler goes on, appends the sixth prefix and sends the list of 6 to
  \<open>bulk_upsert_guild_prefixes\<close>, against its own message "You cannot have more than 5
  custom prefixes!".
\<close>

theorem add_prefix_sixth_is_written:
  "fst (add_prefix five_prefix_world 1 (Submit ''f'')) = Finished []
   \<and> stored_prefixes (snd (add_prefix five_prefix_world 1 (Submit ''f''))) 1
       = Some [''a'', ''b'', ''c'', ''d'', ''e'', ''f'']
   \<and> api_log (snd (add_prefix five_prefix_world 1 (Submit ''f'')))
       = [BulkUpsertPrefixes 1 [''a'', ''b'', ''c'', ''d'', ''e'', ''f'']]"
  by (simp add: add_prefix_def get_prefixes_def api_request_prefixes_def five_prefix_world_def
      empty_world_def modal_prefix_value_def bulk_upsert_guild_prefixes_def)

text \<open>
  C5. The stored list should never be longer than 5. Six additions of six different
  prefixes to a guild without prefixes leave a stored list of length 6: the same guard lets
  the sixth one through.
\<close>

theorem prefix_run_reaches_six:
  "stored_prefixes
     (prefix_run 1 empty_world
        [AddOp (Submit ''a''), AddOp (Submit ''b''), AddOp (Submit ''c''),
         AddOp (Submit ''d''), AddOp (Submit ''e''), AddOp (Submit ''f'')]) 1
   = Some [''a'', ''b'', ''c'', ''d'', ''e'', ''f'']"
  by (simp add: prefix_run_def add_prefix_def get_prefixes_def api_request_prefixes_def
      empty_world_def modal_prefix_value_def bulk_upsert_guild_prefixes_def)

subsection \<open>Duplicates\<close>

text \<open>
  C6. For a guild whose stored list holds the prefix \<open>v\<close>, submitting \<open>v\<close> in the modal
  is refused: the handler answers with a message and returns, and the world is the one it
  started from, so nothing was written and no write request was issued. The message is the
  one for duplicates, or the one for the limit when the list already has more than 5
  entries.
\<close>

theorem add_prefix_duplicate_refused:
  assumes "api_up w" and "stored_prefixes w g = Some ps" and "v \<in> set ps"
    and "1 \<le> length v" and "length v \<le> 50"
  shows "add_prefix w g (Submit v) =
     (Finished [if length ps > 5 then ''You cannot have more than 5 custom prefixes!''
                else ''This prefix is already registered!''], w)"
proof -
  have fetched: "get_prefixes w g = Inr ps"
    using assms(1,2) by (simp add: get_prefixes_def api_request_prefixes_def)
  have submitted: "modal_prefix_value (Submit v) = Some v"
    by (simp add: modal_prefix_value_def)
  have "v \<noteq> []" using assms(4) by auto
  then show ?thesis using fetched submitted assms(3) by (simp add: add_prefix_def)
qed

theorem add_prefix_duplicate_refused_witness:
  "api_up two_prefix_world \<and> stored_prefixes two_prefix_world 1 = Some [''!'', ''?'']
   \<and> ''?'' \<in> set [''!'', ''?''] \<and> 1 \<le> length ''?'' \<and> length ''?'' \<le> 50
   \<and> add_prefix two_prefix_world 1 (Submit ''?'')
       = (Finished [''This prefix is already registered!''], two_prefix_world)"
proof -
  have a: "api_up two_prefix_world" by (simp add: two_prefix_world_def empty_world_def)
  have b: "stored_prefixes two_prefix_world 1 = Some [''!'', ''?'']"
    by (simp add: two_prefix_world_def)
  have c: "''?'' \<in> set [''!'', ''?'']" by simp
  have d: "1 \<le> length ''?''" "length ''?'' \<le> 50" by simp_all
  show ?thesis using a b c d add_prefix_duplicate_refused [OF a b c d] by simp
qed

subsection \<open>Reading the prefixes of a guild without any\<close>

text \<open>
  C7. \<open>get_prefixes\<close> never gives NotFound to its caller; for a guild without stored
  prefixes the request raises NotFound and \<open>get_prefixes\<close> returns the empty list as a
  normal result.
\<close>

theorem get_prefixes_recovers_not_found:
  "get_prefixes w g \<noteq> Inl NotFound
   \<and> (api_up w \<and> stored_prefixes w g = None \<longrightarrow>
        api_request_prefixes w g = Inl NotFound \<and> get_prefixes w g = Inr [])"
  by (auto simp: get_prefixes_def api_request_prefixes_def
      split: sum.splits error.splits option.splits)

theorem get_prefixes_recovers_not_found_witness:
  "get_prefixes empty_world 1 \<noteq> Inl NotFound \<and> api_up empty_world
   \<and> stored_prefixes empty_world 1 = None
   \<and> api_request_prefixes empty_world 1 = Inl NotFound \<and> get_prefixes empty_world 1 = Inr []"
proof -
  have a: "api_up empty_world \<and> stored_prefixes empty_world 1 = None"
    by (simp add: empty_world_def)
  show ?thesis using a get_prefixes_recovers_not_found [of empty_world 1] by simp
qed

subsection \<open>Cancelled sub-flows\<close>

text \<open>
  C9. When the role prompt returns no role, when the prefix modal is let go, and when
  nothing is chosen in the prefix select, the handler leaves the world as it was: no write
  request, nothing stored, nothing invalidated. Where the list of prefixes could be read
  (and, for the modal, is within the limit) the handler returns silently.
\<close>

theorem cancelled_subflow_changes_nothing:
  "add_autorole_button w g None = (Finished [], w)
   \<and> snd (add_prefix w g Dismiss) = w
   \<and> (\<forall>ps. get_prefixes w g = Inr ps \<and> length ps \<le> 5 \<longrightarrow>
        add_prefix w g Dismiss = (Finished [], w))
   \<and> snd (remove_prefix w g []) = w
   \<and> (\<forall>ps. get_prefixes w g = Inr ps \<longrightarrow> remove_prefix w g [] = (Finished [], w))"
  by (auto simp: add_autorole_button_def add_prefix_def remove_prefix_def
      remove_prefix_after_select_def modal_prefix_value_def split: sum.splits)

theorem cancelled_subflow_changes_nothing_witness:
  "get_prefixes two_prefix_world 1 = Inr [''!'', ''?''] \<and> length [''!'', ''?''] \<le> 5
   \<and> add_autorole_button two_prefix_world 1 None = (Finished [], two_prefix_world)
   \<and> add_prefix two_prefix_world 1 Dismiss = (Finished [], two_prefix_world)
   \<and> remove_prefix two_prefix_world 1 [] = (Finished [], two_prefix_world)"
proof -
  have a: "get_prefixes two_prefix_world 1 = Inr [''!'', ''?'']"
    by (simp add: get_prefixes_def api_request_prefixes_def two_prefix_world_def empty_world_def)
  show ?thesis using a cancelled_subflow_changes_nothing [of two_prefix_world 1] by simp
qed

subsection \<open>The length of an added prefix\<close>




subsection \<open>Removing a prefix that is no longer stored\<close>

lemma question_removed_stored: "stored_prefixes question_removed_world 1 = Some [''!'']"
  by (simp add: question_removed_world_def remove_prefix_def remove_prefix_after_select_def
      get_prefixes_def api_request_prefixes_def two_prefix_world_def empty_world_def
      bulk_upsert_guild_prefixes_def)

lemma question_removed_up: "api_up question_removed_world"
  by (simp add: question_removed_world_def remove_prefix_def remove_prefix_after_select_def
      get_prefixes_def api_request_prefixes_def two_prefix_world_def empty_world_def
      bulk_upsert_guild_prefixes_def)

lemma question_replaced_stored: "stored_prefixes question_replaced_world 1 = Some [''!'', ''$'']"
  using question_removed_stored question_removed_up
  by (simp add: question_replaced_world_def add_prefix_def get_prefixes_def
      api_request_prefixes_def modal_prefix_value_def bulk_upsert_guild_prefixes_def)

lemma question_replaced_up: "api_up question_replaced_world"
  using question_removed_stored question_removed_up
  by (simp add: question_replaced_world_def add_prefix_def get_prefixes_def
      api_request_prefixes_def modal_prefix_value_def bulk_upsert_guild_prefixes_def)

lemma two_prefix_read: "get_prefixes two_prefix_world 1 = Inr [''!'', ''?'']"
  by (simp add: get_prefixes_def api_request_prefixes_def two_prefix_world_def empty_world_def)

text \<open>
  The select only offers the prefixes that the handler read, so a value that is not stored
  can reach the removal only when the stored list changed while the select was open.
  The statement that the removal is then a no-op fails. The handler read \<open>["!", "?"]\<close>;
  while its select was open another session removed \<open>?\<close> and added \<open>$\<close>; the
  user then chose \<open>?\<close>, which is no longer stored. No error is raised, but the stored
  list \<open>["!", "$"]\<close> is replaced by \<open>["!"]\<close>.
\<close>

theorem remove_prefix_stale_choice_changes_record:
  "stored_prefixes two_prefix_world 1 = Some [''!'', ''?'']
   \<and> SelectSubMenu_values [''!'', ''?''] (Some 1) = [''?'']
   \<and> stored_prefixes question_replaced_world 1 = Some [''!'', ''$'']
   \<and> ''?'' \<notin> set [''!'', ''$'']
   \<and> fst (remove_prefix_interleaved two_prefix_world question_replaced_world 1 (Some 1)) = Finished []
   \<and> stored_prefixes (snd (remove_prefix_interleaved two_prefix_world question_replaced_world 1 (Some 1))) 1
       = Some [''!'']"
  using two_prefix_read question_replaced_stored question_replaced_up
  by (simp add: remove_prefix_interleaved_def remove_prefix_after_select_def SelectSubMenu_values_def
      bulk_upsert_guild_prefixes_def two_prefix_world_def)

text \<open>
  C4. When the user chooses a value from the select that is no longer in the stored list
  at the time the handler resumes, no error is raised, and the handler stores the list it
  read at its start without that value. The stored list is unchanged exactly when it
  already is that list, as it is when the only change in between was the removal of that
  value.
\<close>

theorem remove_prefix_absent_overwrites:
  assumes "get_prefixes w g = Inr ps" and "i < length ps"
    and "get_prefixes w' g = Inr ps'" and "ps ! i \<notin> set ps'"
  shows "fst (remove_prefix_interleaved w w' g (Some i)) = Finished []
     \<and> get_prefixes (snd (remove_prefix_interleaved w w' g (Some i))) g = Inr (remove1 (ps ! i) ps)
     \<and> (get_prefixes (snd (remove_prefix_interleaved w w' g (Some i))) g = get_prefixes w' g
          \<longleftrightarrow> ps' = remove1 (ps ! i) ps)"
proof -
  have up: "api_up w'"
    using assms(3) by (auto simp: get_prefixes_def api_request_prefixes_def split: if_splits)
  have sel: "SelectSubMenu_values ps (Some i) = [ps ! i]"
    using assms(2) by (simp add: SelectSubMenu_values_def)
  have mem: "ps ! i \<in> set ps" using assms(2) by simp
  have run: "remove_prefix_interleaved w w' g (Some i)
      = (Finished [], w'\<lparr>api_log := api_log w' @ [BulkUpsertPrefixes g (remove1 (ps ! i) ps)],
                          stored_prefixes := (stored_prefixes w')(g \<mapsto> remove1 (ps ! i) ps)\<rparr>)"
    using assms(1) sel mem up
    by (simp add: remove_prefix_interleaved_def remove_prefix_after_select_def
        bulk_upsert_guild_prefixes_def)
  have after: "get_prefixes (snd (remove_prefix_interleaved w w' g (Some i))) g
                 = Inr (remove1 (ps ! i) ps)"
    using up by (simp add: run get_prefixes_def api_request_prefixes_def)
  show ?thesis using run after assms(3) by auto
qed

theorem remove_prefix_absent_overwrites_witness:
  "get_prefixes two_prefix_world 1 = Inr [''!'', ''?''] \<and> 1 < length [''!'', ''?'']
   \<and> get_prefixes question_removed_world 1 = Inr [''!''] \<and> [''!'', ''?''] ! 1 \<notin> set [''!'']
   \<and> fst (remove_prefix_interleaved two_prefix_world question_removed_world 1 (Some 1)) = Finished []
   \<and> get_prefixes (snd (remove_prefix_interleaved two_prefix_world question_removed_world 1 (Some 1))) 1
       = get_prefixes question_removed_world 1"
proof -
  have a: "get_prefixes two_prefix_world 1 = Inr [''!'', ''?'']" by (rule two_prefix_read)
  have b: "1 < length [''!'', ''?'']" by simp
  have c: "get_prefixes question_removed_world 1 = Inr [''!'']"
    using question_removed_stored question_removed_up
    by (simp add: get_prefixes_def api_request_prefixes_def)
  have d: "[''!'', ''?''] ! 1 \<notin> set [''!'']" by simp
  show ?thesis using a b c d remove_prefix_absent_overwrites [OF a b c d] by simp
qed

subsection \<open>Invalidation after a write of the autorole\<close>

text \<open>
  The statement that the cache entry is invalidated also when the backing write fails does
  not hold: with the service down and an entry cached for guild 1, \<open>add_autorole_button\<close>
  raises at \<open>add_config_key\<close> and never reaches \<open>invalidate\<close>; the entry is still cached.
\<close>

theorem add_autorole_failed_write_keeps_cache:
  "fst (add_autorole_button stale_cache_world 1 (Some role_nine)) = Raised StorageError
   \<and> config_cache (snd (add_autorole_button stale_cache_world 1 (Some role_nine))) 1
        = Some \<lparr>autorole_id = Some 7\<rparr>
   \<and> invalidated (snd (add_autorole_button stale_cache_world 1 (Some role_nine))) = []"
  by (simp add: add_autorole_button_def add_config_key_def stale_cache_world_def empty_world_def)

text \<open>
  C3. When the backing write succeeds, adding and removing the autorole invalidate the
  cached entry of the guild: after \<open>add_autorole_button\<close> no entry is cached, and after
  \<open>remove_autorole_button\<close> the entry is the one that its re-render fetched anew. When the
  backing write raises a storage error, the handler raises it as well, \<open>invalidate\<close> is not
  called and the cache is what it was.
\<close>

theorem autorole_write_invalidates_on_success:
  "(api_up w \<longrightarrow>
      fst (add_autorole_button w g (Some r)) = Finished []
      \<and> invalidated (snd (add_autorole_button w g (Some r))) = invalidated w @ [g]
      \<and> config_cache (snd (add_autorole_button w g (Some r))) g = None
      \<and> stored_config (snd (add_autorole_button w g (Some r))) g ''autorole'' = Some (role_id r)
      \<and> invalidated (snd (remove_autorole_button w g)) = invalidated w @ [g]
      \<and> config_cache (snd (remove_autorole_button w g)) g = Some \<lparr>autorole_id = None\<rparr>
      \<and> stored_config (snd (remove_autorole_button w g)) g ''autorole'' = None)
   \<and> (\<not> api_up w \<longrightarrow>
      fst (add_autorole_button w g (Some r)) = Raised StorageError
      \<and> invalidated (snd (add_autorole_button w g (Some r))) = invalidated w
      \<and> config_cache (snd (add_autorole_button w g (Some r))) = config_cache w
      \<and> fst (remove_autorole_button w g) = Raised StorageError
      \<and> invalidated (snd (remove_autorole_button w g)) = invalidated w
      \<and> config_cache (snd (remove_autorole_button w g)) = config_cache w)"
  by (simp add: add_autorole_button_def remove_autorole_button_def add_config_key_def
      remove_config_key_def invalidate_def AutoRole_update_def get_guild_bot_config_def Let_def)

theorem autorole_write_invalidates_on_success_witness:
  "api_up empty_world
   \<and> invalidated (snd (add_autorole_button empty_world 1 (Some role_nine))) = [1]
   \<and> config_cache (snd (add_autorole_button empty_world 1 (Some role_nine))) 1 = None
   \<and> invalidated (snd (remove_autorole_button empty_world 1)) = [1]
   \<and> \<not> api_up stale_cache_world
   \<and> fst (remove_autorole_button stale_cache_world 1) = Raised StorageError
   \<and> config_cache (snd (remove_autorole_button stale_cache_world 1)) = config_cache stale_cache_world"
proof -
  have a: "api_up empty_world" and b: "invalidated empty_world = []"
    by (simp_all add: empty_world_def)
  have c: "\<not> api_up stale_cache_world"
    by (simp add: stale_cache_world_def empty_world_def)
  show ?thesis
    using a b c autorole_write_invalidates_on_success [of empty_world 1 role_nine]
      autorole_write_invalidates_on_success [of stale_cache_world 1 role_nine]
    by simp
qed

subsection \<open>The three states of the AutoRole menu\<close>

text \<open>
  C8. The render of the AutoRole menu has three states. With no autorole id stored, the add
  button reads "Add an autorole" and the remove button is disabled. With an id that
  resolves to a live role, the add button reads "Change autorole" and the remove button is
  enabled. With an id that no longer resolves, the add button reads "Change autorole"
  and the remove button is enabled too, and the description differs from the descriptions of
  both other states, which differ from each other as well.
\<close>

theorem autorole_render_three_states:
  assumes "autorole_id r0 = None"
    and "autorole_id r1 = Some i" and "roles i = Some ar"
    and "autorole_id r2 = Some j" and "roles j = None"
  shows "add_autorole_label (AutoRole_format_initial_message roles r0) = ''Add an autorole''
       \<and> remove_autorole_disabled (AutoRole_format_initial_message roles r0)
       \<and> add_autorole_label (AutoRole_format_initial_message roles r1) = ''Change autorole''
       \<and> \<not> remove_autorole_disabled (AutoRole_format_initial_message roles r1)
       \<and> add_autorole_label (AutoRole_format_initial_message roles r2) = ''Change autorole''
       \<and> \<not> remove_autorole_disabled (AutoRole_format_initial_message roles r2)
       \<and> embed_description (AutoRole_format_initial_message roles r2)
           \<noteq> embed_description (AutoRole_format_initial_message roles r0)
       \<and> embed_description (AutoRole_format_initial_message roles r2)
           \<noteq> embed_description (AutoRole_format_initial_message roles r1)
       \<and> embed_description (AutoRole_format_initial_message roles r0)
           \<noteq> embed_description (AutoRole_format_initial_message roles r1)"
  using assms by (simp add: AutoRole_format_initial_message_def autorole_def)

theorem autorole_render_three_states_witness:
  "autorole_id \<lparr>autorole_id = None\<rparr> = None
   \<and> autorole_id \<lparr>autorole_id = Some 9\<rparr> = Some 9 \<and> only_role_nine 9 = Some role_nine
   \<and> autorole_id \<lparr>autorole_id = Some 4\<rparr> = Some 4 \<and> only_role_nine 4 = None
   \<and> AutoRole_format_initial_message only_role_nine \<lparr>autorole_id = None\<rparr>
       = \<lparr>embed_title = ''Auto Role Configuration'', embed_color = 0xf74b06,
          embed_description = ''This server has not setup an autorole yet.'',
          add_autorole_label = ''Add an autorole'', remove_autorole_disabled = True\<rparr>
   \<and> embed_description (AutoRole_format_initial_message only_role_nine \<lparr>autorole_id = Some 9\<rparr>)
       = ''Members will be assigned <@&9> (9) when they join this server.''
   \<and> add_autorole_label (AutoRole_format_initial_message only_role_nine \<lparr>autorole_id = Some 4\<rparr>)
       = ''Change autorole''
   \<and> embed_description (AutoRole_format_initial_message only_role_nine \<lparr>autorole_id = Some 4\<rparr>)
       \<noteq> embed_description (AutoRole_format_initial_message only_role_nine \<lparr>autorole_id = Some 9\<rparr>)"
proof -
  have a: "autorole_id \<lparr>autorole_id = None\<rparr> = None" by simp
  have b: "autorole_id \<lparr>autorole_id = Some 9\<rparr> = Some 9" "only_role_nine 9 = Some role_nine"
    by (simp_all add: only_role_nine_def)
  have c: "autorole_id \<lparr>autorole_id = Some 4\<rparr> = Some 4" "only_role_nine 4 = None"
    by (simp_all add: only_role_nine_def)
  have d: "str_int 9 = ''9''" by (simp add: str_int_def str_nat.simps)
  have e: "AutoRole_format_initial_message only_role_nine \<lparr>autorole_id = None\<rparr>
       = \<lparr>embed_title = ''Auto Role Configuration'', embed_color = 0xf74b06,
          embed_description = ''This server has not setup an autorole yet.'',
          add_autorole_label = ''Add an autorole'', remove_autorole_disabled = True\<rparr>"
    by (simp add: AutoRole_format_initial_message_def autorole_def)
  have f: "embed_description (AutoRole_format_initial_message only_role_nine \<lparr>autorole_id = Some 9\<rparr>)
       = ''Members will be assigned <@&9> (9) when they join this server.''"
    using b(2) d by (simp add: AutoRole_format_initial_message_def autorole_def role_nine_def)
  show ?thesis using autorole_render_three_states [OF a b c] a b c e f by simp
qed

subsection \<open>One decorated handler at a time\<close>

lemma lock_inv_new: "lock_inv d new_session"
  by (simp add: lock_inv_def new_session_def)

lemma filter_single:
  assumes "length (filter P xs) \<le> 1" and "c \<in> set xs" and "P c"
  shows "filter P xs = [c]"
proof -
  have "c \<in> set (filter P xs)" using assms(2,3) by simp
  then show ?thesis using assms(1)
    by (cases "filter P xs") (auto simp: Suc_le_eq)
qed

lemma lock_inv_step: "lock_inv d s \<Longrightarrow> lock_inv d (session_step d s e)"
proof (cases e)
  case (Activate c)
  assume "lock_inv d s"
  then show ?thesis using Activate by (auto simp: lock_inv_def)
next
  case (Complete c)
  assume inv: "lock_inv d s"
  show ?thesis
  proof (cases "c \<in> set (in_flight s)")
    case False
    then show ?thesis using inv Complete by simp
  next
    case True
    show ?thesis
    proof (cases "d c")
      case dc: True
      have "filter d (in_flight s) = [c]"
        using inv True dc by (intro filter_single) (simp_all add: lock_inv_def)
      then show ?thesis using True dc Complete by (simp add: lock_inv_def filter_remove1)
    next
      case dc: False
      have "remove1 c (filter d (in_flight s)) = filter d (in_flight s)"
        using dc by (simp add: remove1_idem)
      then show ?thesis using inv True dc Complete by (simp add: lock_inv_def filter_remove1)
    qed
  qed
qed

lemma lock_inv_foldl: "lock_inv d s \<Longrightarrow> lock_inv d (foldl (session_step d) s es)"
  by (induction es arbitrary: s) (simp_all add: lock_inv_step)

lemma lock_inv_run: "lock_inv d (session_run d es)"
  by (simp add: session_run_def lock_inv_foldl lock_inv_new)

lemma locked_ignores:
  assumes "c \<in> set (in_flight (session_run d es))" and "d c"
  shows "session_step d (session_run d es) (Activate c') = session_run d es"
proof -
  have "filter d (in_flight (session_run d es)) \<noteq> []"
    using assms by (auto simp: filter_empty_conv)
  then have "locked (session_run d es)"
    using lock_inv_run [of d es] by (simp add: lock_inv_def)
  then show ?thesis by simp
qed

lemma completed_accepts_again:
  assumes "c \<in> set (in_flight s)" and "d c"
  shows "c' \<in> set (in_flight (session_step d (session_step d s (Complete c)) (Activate c')))"
  using assms by simp

lemma Prefix_all_decorated: "Prefix_lock_when_pressed c"
  by (cases c) simp_all

text \<open>
  The statement that no second activation is accepted while any mutating handler is in
  flight fails in the AutoRole menu for \<open>remove_autorole_button\<close>, which is not decorated:
  pressed first, it leaves the session unlocked, and a press of the add button of the same
  menu is accepted while it runs. Two mutating handlers are then in flight.
\<close>

theorem remove_autorole_does_not_lock:
  "in_flight (session_run AutoRole_lock_when_pressed
                [Activate RemoveAutoroleButton, Activate AddAutoroleButton])
     = [AddAutoroleButton, RemoveAutoroleButton]"
  by (simp add: session_run_def new_session_def)

text \<open>
  C2. In every session of the Prefix menu, after any sequence of activations and
  completions, at most one handler is in flight; while one is, every further activation is
  ignored; and once it has completed, an activation is accepted again. In every session of
  the AutoRole menu the same holds for the handler that adds the autorole: at most one is
  in flight, while it is every activation is ignored, and after it has completed an
  activation is accepted again. The handler that removes the autorole is not decorated and
  takes no lock.
\<close>

theorem lock_serialises_decorated_handlers:
  "length (in_flight (session_run Prefix_lock_when_pressed pes)) \<le> 1
   \<and> (\<forall>c. c \<in> set (in_flight (session_run Prefix_lock_when_pressed pes)) \<longrightarrow>
        (\<forall>c'. session_step Prefix_lock_when_pressed (session_run Prefix_lock_when_pressed pes) (Activate c')
                = session_run Prefix_lock_when_pressed pes)
        \<and> (\<forall>c'. c' \<in> set (in_flight
               (session_step Prefix_lock_when_pressed
                  (session_step Prefix_lock_when_pressed (session_run Prefix_lock_when_pressed pes) (Complete c))
                  (Activate c')))))
   \<and> length (filter AutoRole_lock_when_pressed (in_flight (session_run AutoRole_lock_when_pressed aes))) \<le> 1
   \<and> (AddAutoroleButton \<in> set (in_flight (session_run AutoRole_lock_when_pressed aes)) \<longrightarrow>
        (\<forall>c'. session_step AutoRole_lock_when_pressed (session_run AutoRole_lock_when_pressed aes) (Activate c')
                = session_run AutoRole_lock_when_pressed aes)
        \<and> (\<forall>c'. c' \<in> set (in_flight
               (session_step AutoRole_lock_when_pressed
                  (session_step AutoRole_lock_when_pressed (session_run AutoRole_lock_when_pressed aes)
                     (Complete AddAutoroleButton))
                  (Activate c')))))"
proof -
  let ?P = "session_run Prefix_lock_when_pressed pes"
  let ?A = "session_run AutoRole_lock_when_pressed aes"
  have "filter Prefix_lock_when_pressed (in_flight ?P) = in_flight ?P"
    by (simp add: Prefix_all_decorated)
  then have p1: "length (in_flight ?P) \<le> 1"
    using lock_inv_run [of Prefix_lock_when_pressed pes] by (simp add: lock_inv_def)
  have p2: "session_step Prefix_lock_when_pressed ?P (Activate c') = ?P"
    if "c \<in> set (in_flight ?P)" for c c'
    using that by (rule locked_ignores) (rule Prefix_all_decorated)
  have p3: "c' \<in> set (in_flight (session_step Prefix_lock_when_pressed
                (session_step Prefix_lock_when_pressed ?P (Complete c)) (Activate c')))"
    if "c \<in> set (in_flight ?P)" for c c'
    using that by (rule completed_accepts_again) (rule Prefix_all_decorated)
  have a1: "length (filter AutoRole_lock_when_pressed (in_flight ?A)) \<le> 1"
    using lock_inv_run [of AutoRole_lock_when_pressed aes] by (simp add: lock_inv_def)
  have a2: "session_step AutoRole_lock_when_pressed ?A (Activate c') = ?A"
    if "AddAutoroleButton \<in> set (in_flight ?A)" for c'
    using that by (rule locked_ignores) simp
  have a3: "c' \<in> set (in_flight (session_step AutoRole_lock_when_pressed
                (session_step AutoRole_lock_when_pressed ?A (Complete AddAutoroleButton)) (Activate c')))"
    if "AddAutoroleButton \<in> set (in_flight ?A)" for c'
    using that by (rule completed_accepts_again) simp
  show ?thesis using p1 p2 p3 a1 a2 a3 by blast
qed

theorem lock_serialises_decorated_handlers_witness:
  "RemovePrefix \<in> set (in_flight (session_run Prefix_lock_when_pressed [Activate RemovePrefix]))
   \<and> session_step Prefix_lock_when_pressed (session_run Prefix_lock_when_pressed [Activate RemovePrefix])
        (Activate AddPrefix)
       = session_run Prefix_lock_when_pressed [Activate RemovePrefix]
   \<and> AddPrefix \<in> set (in_flight
        (session_step Prefix_lock_when_pressed
           (session_step Prefix_lock_when_pressed
              (session_run Prefix_lock_when_pressed [Activate RemovePrefix]) (Complete RemovePrefix))
           (Activate AddPrefix)))
   \<and> AddAutoroleButton \<in> set (in_flight (session_run AutoRole_lock_when_pressed [Activate AddAutoroleButton]))
   \<and> session_step AutoRole_lock_when_pressed
        (session_run AutoRole_lock_when_pressed [Activate AddAutoroleButton]) (Activate RemoveAutoroleButton)
       = session_run AutoRole_lock_when_pressed [Activate AddAutoroleButton]
   \<and> RemoveAutoroleButton \<in> set (in_flight
        (session_step AutoRole_lock_when_pressed
           (session_step AutoRole_lock_when_pressed
              (session_run AutoRole_lock_when_pressed [Activate AddAutoroleButton])
              (Complete AddAutoroleButton))
           (Activate RemoveAutoroleButton)))"
proof -
  have p: "RemovePrefix \<in> set (in_flight (session_run Prefix_lock_when_pressed [Activate RemovePrefix]))"
    by (simp add: session_run_def new_session_def)
  have a: "AddAutoroleButton
             \<in> set (in_flight (session_run AutoRole_lock_when_pressed [Activate AddAutoroleButton]))"
    by (simp add: session_run_def new_session_def)
  show ?thesis
    using p a lock_serialises_decorated_handlers
                [of "[Activate RemovePrefix]" "[Activate AddAutoroleButton]"]
    by blast
qed

end
